theory Spec2Isabelle
  imports Complex_Main
begin

section \<open>The TC009 scenario script: a shallow embedding\<close>

text \<open>
  The repository holds one Python script,
  \<^verbatim>\<open>testsprite_tests/TC009_Nearby_Issue_Queries_with_Spatial_Indexing_Performance.py\<close>.
  Its single coroutine \<^verbatim>\<open>run_test\<close> is straight-line code over the Playwright API
  inside one \<^verbatim>\<open>try ... finally\<close>. Every call into Playwright is an effect whose
  result the script does not control, so the model takes the result of every call site
  from an environment record and logs the call in a trace. Each call site runs at most
  once (the only loop walks the list of frames), so an environment indexed by call site
  covers every behaviour of the browser.
\<close>

subsection \<open>Exceptions\<close>

text \<open>
  \<^verbatim>\<open>playwright.async_api.Error\<close> is the base class of what Playwright raises;
  \<^verbatim>\<open>TimeoutError\<close> is its subclass. \<^verbatim>\<open>AssertionError\<close> and \<^verbatim>\<open>IndexError\<close> are
  Python's own; \<open>OtherException\<close> stands for any exception outside these classes.
\<close>

datatype exn =
    Error string
  | TimeoutError string
  | AssertionError string
  | IndexError
  | OtherException string

text \<open>The test of \<^verbatim>\<open>except async_api.Error\<close>: the class and its subclasses.\<close>

fun is_async_api_Error :: "exn \<Rightarrow> bool" where
  "is_async_api_Error (Error _) = True"
| "is_async_api_Error (TimeoutError _) = True"
| "is_async_api_Error _ = False"

subsection \<open>Objects, calls and the environment\<close>

text \<open>Playwright objects (driver, browser, context, pages, frames) by identity.\<close>

type_synonym obj = nat

text \<open>\<^verbatim>\<open>frame.locator(xpath).nth(n)\<close>: a lazy query bound to one page, no call yet.\<close>

record locator =
  loc_page :: obj
  selector :: string
  nth_index :: nat

datatype event =
    Playwright_start
  | Chromium_launch obj bool "string list"
  | New_context obj
  | Set_default_timeout obj nat
  | New_page obj
  | Goto obj string "string option" nat
  | Page_wait_for_load_state obj string nat
  | Frames_read obj
  | Frame_wait_for_load_state obj string nat
  | Pages_read obj
  | Wait_for_timeout obj nat
  | Click locator nat
  | Asyncio_sleep nat
  | Context_close obj
  | Browser_close obj
  | Playwright_stop obj

text \<open>
  What each call site returns or raises (\<open>Inl\<close> the exception). \<open>frames_r\<close> is
  \<^verbatim>\<open>page.frames\<close> as read at line 41, each frame with the result of its readiness wait;
  \<open>pages_r k\<close> is \<^verbatim>\<open>context.pages\<close> as read at the start of click step \<open>k\<close>;
  \<open>api_goto_r\<close> is the response of the navigation to the query endpoint (line 55),
  of whatever type \<open>'r\<close> the server's payload has. \<open>assertions_on\<close> is Python's
  \<^verbatim>\<open>__debug__\<close>: true by default, false when the interpreter runs with \<^verbatim>\<open>-O\<close> or
  \<^verbatim>\<open>PYTHONOPTIMIZE\<close>, which strips every \<^verbatim>\<open>assert\<close> statement.
\<close>

record 'r env =
  start_r :: "exn + obj"
  launch_r :: "exn + obj"
  new_context_r :: "exn + obj"
  set_default_timeout_r :: "exn + unit"
  new_page_r :: "exn + obj"
  goto_r :: "exn + unit"
  page_ready_r :: "exn + unit"
  frames_r :: "(obj \<times> (exn + unit)) list"
  pages_r :: "nat \<Rightarrow> obj list"
  settle_r :: "nat \<Rightarrow> exn + unit"
  click_r :: "nat \<Rightarrow> exn + unit"
  api_goto_r :: "exn + 'r"
  assertions_on :: bool
  sleep_r :: "exn + unit"
  context_close_r :: "exn + unit"
  browser_close_r :: "exn + unit"
  stop_r :: "exn + unit"

subsection \<open>State and sequencing\<close>

text \<open>
  The three locals that the \<^verbatim>\<open>finally\<close> block reads (lines 5 to 7, \<^verbatim>\<open>None\<close> at first;
  \<open>context_h\<close> is the local \<^verbatim>\<open>context\<close>, a reserved word here), and the trace of
  calls made so far.
\<close>

record state =
  pw :: "obj option"
  browser :: "obj option"
  context_h :: "obj option"
  trace :: "event list"

definition init :: state where
  "init = \<lparr>pw = None, browser = None, context_h = None, trace = []\<rparr>"

type_synonym 'a act = "state \<Rightarrow> (exn + 'a) \<times> state"

definition py_return :: "'a \<Rightarrow> 'a act" where
  "py_return x s = (Inr x, s)"

definition py_raise :: "exn \<Rightarrow> 'a act" where
  "py_raise e s = (Inl e, s)"

definition log_event :: "event \<Rightarrow> state \<Rightarrow> state" where
  "log_event ev s = s\<lparr>trace := trace s @ [ev]\<rparr>"

text \<open>An awaited call: logged, then its result or its exception.\<close>

definition call :: "event \<Rightarrow> exn + 'a \<Rightarrow> 'a act" where
  "call ev r s = (r, log_event ev s)"

text \<open>Statement sequencing: an exception skips what follows.\<close>

definition and_then :: "'a act \<Rightarrow> ('a \<Rightarrow> 'b act) \<Rightarrow> 'b act" where
  "and_then m f s = (case m s of (Inl e, s') \<Rightarrow> (Inl e, s') | (Inr x, s') \<Rightarrow> f x s')"

fun seq :: "unit act list \<Rightarrow> unit act" where
  "seq [] = py_return ()"
| "seq (m # ms) = and_then m (\<lambda>_. seq ms)"

text \<open>\<^verbatim>\<open>try: m  except async_api.Error: pass\<close> (lines 35 to 38 and 42 to 45).\<close>

definition except_Error_pass :: "unit act \<Rightarrow> unit act" where
  "except_Error_pass m s =
     (case m s of
        (Inl e, s') \<Rightarrow> if is_async_api_Error e then (Inr (), s') else (Inl e, s')
      | (Inr x, s') \<Rightarrow> (Inr x, s'))"

text \<open>
  \<^verbatim>\<open>try: body  finally: fin\<close>: \<open>fin\<close> always runs; if it raises, its exception is the
  one that leaves the statement, otherwise the body's result stands.
\<close>

definition try_finally :: "unit act \<Rightarrow> unit act \<Rightarrow> unit act" where
  "try_finally body fin s =
     (case body s of (r, s') \<Rightarrow>
        (case fin s' of (Inl e, s'') \<Rightarrow> (Inl e, s'') | (Inr _, s'') \<Rightarrow> (r, s'')))"

subsection \<open>Session set-up (lines 11 to 29)\<close>

definition launch_args :: "string list" where
  "launch_args =
     [''--window-size=1280,720'', ''--disable-dev-shm-usage'', ''--ipc=host'',
      ''--single-process'']"

definition set_pw :: "obj \<Rightarrow> unit act" where
  "set_pw p s = (Inr (), s\<lparr>pw := Some p\<rparr>)"

definition set_browser :: "obj \<Rightarrow> unit act" where
  "set_browser b s = (Inr (), s\<lparr>browser := Some b\<rparr>)"

definition set_context :: "obj \<Rightarrow> unit act" where
  "set_context c s = (Inr (), s\<lparr>context_h := Some c\<rparr>)"

text \<open>Returns the locals \<^verbatim>\<open>context\<close> and \<^verbatim>\<open>page\<close> for the rest of the body.\<close>

definition acquire :: "'r env \<Rightarrow> (obj \<times> obj) act" where
  "acquire env =
     and_then (call Playwright_start (start_r env)) (\<lambda>p.
     and_then (set_pw p) (\<lambda>_.
     and_then (call (Chromium_launch p True launch_args) (launch_r env)) (\<lambda>b.
     and_then (set_browser b) (\<lambda>_.
     and_then (call (New_context b) (new_context_r env)) (\<lambda>c.
     and_then (set_context c) (\<lambda>_.
     and_then (call (Set_default_timeout c 5000) (set_default_timeout_r env)) (\<lambda>_.
     and_then (call (New_page c) (new_page_r env)) (\<lambda>page.
     py_return (c, page)))))))))"

subsection \<open>Navigation and readiness waits (lines 32 to 45)\<close>

fun wait_frames :: "(obj \<times> (exn + unit)) list \<Rightarrow> unit act" where
  "wait_frames [] = py_return ()"
| "wait_frames ((frame, r) # rest) =
     and_then
       (except_Error_pass (call (Frame_wait_for_load_state frame ''domcontentloaded'' 3000) r))
       (\<lambda>_. wait_frames rest)"

definition navigate :: "'r env \<Rightarrow> obj \<Rightarrow> unit act" where
  "navigate env page =
     and_then (call (Goto page ''http://localhost:3000'' (Some ''commit'') 10000) (goto_r env)) (\<lambda>_.
     and_then
       (except_Error_pass
          (call (Page_wait_for_load_state page ''domcontentloaded'' 3000) (page_ready_r env))) (\<lambda>_.
     and_then (call (Frames_read page) (Inr (frames_r env))) (\<lambda>frames.
     wait_frames frames)))"

subsection \<open>The scripted steps (lines 49 to 104)\<close>

definition api_url :: string where
  "api_url = ''http://localhost:3000/api/issues?lat=40.7128&lng=-74.0060&radius=5&filter=status:open''"

definition xpath_header_a2 :: string where
  "xpath_header_a2 = ''xpath=html/body/div/div[2]/div/header/div/div/a[2]''"

definition xpath_body_div :: string where
  "xpath_body_div = ''xpath=html/body/div''"

definition xpath_main_a :: string where
  "xpath_main_a = ''xpath=html/body/div/div[2]/main/div/div[2]/div/div/div/div[2]/div/div/a''"

definition xpath_main_a2 :: string where
  "xpath_main_a2 = ''xpath=html/body/div/div[2]/main/div/div[2]/div/div/div/div[2]/div/div/a[2]''"

definition assert_message :: string where
  "assert_message =
     ''Test plan execution failed: generic failure assertion as expected result is unknown.''"

text \<open>\<^verbatim>\<open>context.pages[-1]\<close>: the last page of the list, \<^verbatim>\<open>IndexError\<close> on an empty one.\<close>

definition pages_last :: "obj \<Rightarrow> obj list \<Rightarrow> obj act" where
  "pages_last ctx ps s =
     (if ps = [] then Inl IndexError else Inr (last ps), log_event (Pages_read ctx) s)"

text \<open>
  One click step, the three lines
  \<^verbatim>\<open>frame = context.pages[-1]\<close>,
  \<^verbatim>\<open>elem = frame.locator(xpath).nth(0)\<close>,
  \<^verbatim>\<open>await page.wait_for_timeout(3000); await elem.click(timeout=5000)\<close>,
  where \<^verbatim>\<open>page\<close> is the local assigned once at line 29.
\<close>

definition click_step :: "'r env \<Rightarrow> obj \<Rightarrow> obj \<Rightarrow> nat \<Rightarrow> string \<Rightarrow> unit act" where
  "click_step env ctx page k xpath =
     and_then (pages_last ctx (pages_r env k)) (\<lambda>frame.
     and_then (py_return \<lparr>loc_page = frame, selector = xpath, nth_index = 0\<rparr>) (\<lambda>elem.
     and_then (call (Wait_for_timeout page 3000) (settle_r env k)) (\<lambda>_.
     call (Click elem 5000) (click_r env k))))"

text \<open>
  The statements of the script after the readiness waits, in source order: the nine click
  steps (lines 49 to 51, 59 to 61, 65 to 67, 71 to 73, 76 to 78, 82 to 84, 87 to 89, 92 to 94
  and 98 to 100), numbered 1 to 9, the navigation to the query endpoint (line 55),
  \<^verbatim>\<open>assert False, msg\<close> (line 103; it raises when assertions are on and is no
  statement at all when they are off) and \<^verbatim>\<open>await asyncio.sleep(5)\<close> (line 104).
\<close>

datatype action =
    Click_at nat string
  | Goto_api
  | Assert_False string
  | Sleep nat

definition script :: "action list" where
  "script =
     [Click_at 1 xpath_header_a2,
      Goto_api,
      Click_at 2 xpath_header_a2,
      Click_at 3 xpath_body_div,
      Click_at 4 xpath_body_div,
      Click_at 5 xpath_body_div,
      Click_at 6 xpath_main_a,
      Click_at 7 xpath_main_a2,
      Click_at 8 xpath_body_div,
      Click_at 9 xpath_body_div,
      Assert_False assert_message,
      Sleep 5]"

text \<open>The response of the endpoint navigation is not bound to any name: it is dropped.\<close>

definition discard :: "exn + 'a \<Rightarrow> exn + unit" where
  "discard r = (case r of Inl e \<Rightarrow> Inl e | Inr _ \<Rightarrow> Inr ())"

fun exec_action :: "'r env \<Rightarrow> obj \<Rightarrow> obj \<Rightarrow> action \<Rightarrow> unit act" where
  "exec_action env ctx page (Click_at k xpath) = click_step env ctx page k xpath"
| "exec_action env ctx page Goto_api =
     call (Goto page api_url None 10000) (discard (api_goto_r env))"
| "exec_action env ctx page (Assert_False msg) =
     (if assertions_on env then py_raise (AssertionError msg) else py_return ())"
| "exec_action env ctx page (Sleep n) = call (Asyncio_sleep n) (sleep_r env)"

definition interact :: "'r env \<Rightarrow> obj \<Rightarrow> obj \<Rightarrow> unit act" where
  "interact env ctx page = seq (map (exec_action env ctx page) script)"

subsection \<open>The \<^verbatim>\<open>try\<close> body, the \<^verbatim>\<open>finally\<close> block and the run\<close>

definition try_body :: "'r env \<Rightarrow> unit act" where
  "try_body env =
     and_then (acquire env) (\<lambda>(ctx, page).
     and_then (navigate env page) (\<lambda>_.
     interact env ctx page))"

text \<open>
  Lines 107 to 112: three guarded calls, with no handler around any of them. A Playwright
  object is truthy, so each guard tests whether the local is still \<^verbatim>\<open>None\<close>.
\<close>

definition close_context :: "'r env \<Rightarrow> unit act" where
  "close_context env s =
     (case context_h s of None \<Rightarrow> py_return () s
      | Some c \<Rightarrow> call (Context_close c) (context_close_r env) s)"

definition close_browser :: "'r env \<Rightarrow> unit act" where
  "close_browser env s =
     (case browser s of None \<Rightarrow> py_return () s
      | Some b \<Rightarrow> call (Browser_close b) (browser_close_r env) s)"

definition stop_pw :: "'r env \<Rightarrow> unit act" where
  "stop_pw env s =
     (case pw s of None \<Rightarrow> py_return () s
      | Some p \<Rightarrow> call (Playwright_stop p) (stop_r env) s)"

definition teardown :: "'r env \<Rightarrow> unit act" where
  "teardown env = seq [close_context env, close_browser env, stop_pw env]"

definition run_test :: "'r env \<Rightarrow> (exn + unit) \<times> state" where
  "run_test env = try_finally (try_body env) (teardown env) init"

text \<open>
  Line 114, \<^verbatim>\<open>asyncio.run(run_test())\<close>: the process ends normally when the coroutine
  returns and with the exception when it raises.
\<close>

datatype outcome = Passed | Failed exn

definition main :: "'r env \<Rightarrow> outcome" where
  "main env = (case fst (run_test env) of Inl e \<Rightarrow> Failed e | Inr _ \<Rightarrow> Passed)"

definition events :: "'r env \<Rightarrow> event list" where
  "events env = trace (snd (run_test env))"

definition final :: "'r env \<Rightarrow> state" where
  "final env = snd (run_test env)"

subsection \<open>Auxiliary notions for the statements\<close>

text \<open>The three calls of the \<^verbatim>\<open>finally\<close> block.\<close>

fun is_release :: "event \<Rightarrow> bool" where
  "is_release (Context_close _) = True"
| "is_release (Browser_close _) = True"
| "is_release (Playwright_stop _) = True"
| "is_release _ = False"

text \<open>An action that only appends calls other than those three, and assigns no local.\<close>

definition quiet :: "'a act \<Rightarrow> bool" where
  "quiet m \<longleftrightarrow>
     (\<forall>s. \<exists>evs. snd (m s) = s\<lparr>trace := trace s @ evs\<rparr> \<and> \<not> list_ex is_release evs)"

text \<open>
  Which handles the set-up assigns, read off the environment: a local is bound exactly
  when its call and the calls before it returned.
\<close>

definition acquired_pw :: "'r env \<Rightarrow> obj option" where
  "acquired_pw env = (case start_r env of Inl _ \<Rightarrow> None | Inr p \<Rightarrow> Some p)"

definition acquired_browser :: "'r env \<Rightarrow> obj option" where
  "acquired_browser env =
     (case start_r env of Inl _ \<Rightarrow> None
      | Inr _ \<Rightarrow> (case launch_r env of Inl _ \<Rightarrow> None | Inr b \<Rightarrow> Some b))"

definition acquired_context :: "'r env \<Rightarrow> obj option" where
  "acquired_context env =
     (case acquired_browser env of None \<Rightarrow> None
      | Some _ \<Rightarrow> (case new_context_r env of Inl _ \<Rightarrow> None | Inr c \<Rightarrow> Some c))"

text \<open>The whole set-up returned: driver \<open>p\<close>, browser \<open>b\<close>, context \<open>c\<close>, page \<open>pg\<close>.\<close>

definition session_ok :: "'r env \<Rightarrow> obj \<Rightarrow> obj \<Rightarrow> obj \<Rightarrow> obj \<Rightarrow> bool" where
  "session_ok env p b c pg \<longleftrightarrow>
     start_r env = Inr p \<and> launch_r env = Inr b \<and> new_context_r env = Inr c \<and>
     set_default_timeout_r env = Inr () \<and> new_page_r env = Inr pg"

definition session_events :: "obj \<Rightarrow> obj \<Rightarrow> obj \<Rightarrow> event list" where
  "session_events p b c =
     [Playwright_start, Chromium_launch p True launch_args, New_context b,
      Set_default_timeout c 5000, New_page c]"

text \<open>A readiness wait that returned, or raised something \<^verbatim>\<open>except async_api.Error\<close> catches.\<close>

fun ready_or_api_error :: "exn + unit \<Rightarrow> bool" where
  "ready_or_api_error (Inr _) = True"
| "ready_or_api_error (Inl e) = is_async_api_Error e"

text \<open>
  The first navigation committed, and no readiness wait raised anything outside
  \<^verbatim>\<open>async_api.Error\<close>.
\<close>

definition navigation_ok :: "'r env \<Rightarrow> bool" where
  "navigation_ok env \<longleftrightarrow>
     goto_r env = Inr () \<and> ready_or_api_error (page_ready_r env) \<and>
     list_all (\<lambda>fr. ready_or_api_error (snd fr)) (frames_r env)"

definition navigation_events :: "'r env \<Rightarrow> obj \<Rightarrow> event list" where
  "navigation_events env page =
     [Goto page ''http://localhost:3000'' (Some ''commit'') 10000,
      Page_wait_for_load_state page ''domcontentloaded'' 3000,
      Frames_read page] @
     map (\<lambda>fr. Frame_wait_for_load_state (fst fr) ''domcontentloaded'' 3000) (frames_r env)"

text \<open>A scripted statement that completes in the environment, and the calls it then makes.\<close>

fun action_ok :: "'r env \<Rightarrow> action \<Rightarrow> bool" where
  "action_ok env (Click_at k xpath) =
     (pages_r env k \<noteq> [] \<and> settle_r env k = Inr () \<and> click_r env k = Inr ())"
| "action_ok env Goto_api = (\<not> isl (api_goto_r env))"
| "action_ok env (Assert_False msg) = (\<not> assertions_on env)"
| "action_ok env (Sleep n) = (sleep_r env = Inr ())"

definition step_events :: "'r env \<Rightarrow> obj \<Rightarrow> obj \<Rightarrow> nat \<Rightarrow> string \<Rightarrow> event list" where
  "step_events env ctx page k xpath =
     [Pages_read ctx, Wait_for_timeout page 3000,
      Click \<lparr>loc_page = last (pages_r env k), selector = xpath, nth_index = 0\<rparr> 5000]"

fun action_events :: "'r env \<Rightarrow> obj \<Rightarrow> obj \<Rightarrow> action \<Rightarrow> event list" where
  "action_events env ctx page (Click_at k xpath) = step_events env ctx page k xpath"
| "action_events env ctx page Goto_api = [Goto page api_url None 10000]"
| "action_events env ctx page (Assert_False msg) = []"
| "action_events env ctx page (Sleep n) = [Asyncio_sleep n]"

text \<open>No call of the \<^verbatim>\<open>finally\<close> block raises.\<close>

definition release_ok :: "'r env \<Rightarrow> bool" where
  "release_ok env \<longleftrightarrow>
     context_close_r env = Inr () \<and> browser_close_r env = Inr () \<and> stop_r env = Inr ()"

text \<open>
  The calls of the \<^verbatim>\<open>finally\<close> block that are due for the handles the set-up bound, in
  the order of the block.
\<close>

definition due_releases :: "'r env \<Rightarrow> event list" where
  "due_releases env =
     (case acquired_context env of None \<Rightarrow> [] | Some c \<Rightarrow> [Context_close c]) @
     (case acquired_browser env of None \<Rightarrow> [] | Some b \<Rightarrow> [Browser_close b]) @
     (case acquired_pw env of None \<Rightarrow> [] | Some p \<Rightarrow> [Playwright_stop p])"

subsection \<open>Concrete environments\<close>

text \<open>
  A browser in which every call returns: one page (object 4) with its main frame
  (object 5), and \<open>resp\<close> as the endpoint's response; the interpreter runs with
  assertions on.
\<close>

definition env_ok :: "'r \<Rightarrow> 'r env" where
  "env_ok resp =
     \<lparr>start_r = Inr 1, launch_r = Inr 2, new_context_r = Inr 3,
      set_default_timeout_r = Inr (), new_page_r = Inr 4, goto_r = Inr (),
      page_ready_r = Inr (), frames_r = [(5, Inr ())], pages_r = (\<lambda>_. [4]),
      settle_r = (\<lambda>_. Inr ()), click_r = (\<lambda>_. Inr ()), api_goto_r = Inr resp,
      assertions_on = True, sleep_r = Inr (), context_close_r = Inr (), browser_close_r = Inr (),
      stop_r = Inr ()\<rparr>"

text \<open>A browser whose calls all return, except that one call of the teardown raises.\<close>

definition env_context_close_fails :: "unit env" where
  "env_context_close_fails = (env_ok ())\<lparr>context_close_r := Inl (Error ''Connection closed'')\<rparr>"

definition env_browser_close_fails :: "unit env" where
  "env_browser_close_fails = (env_ok ())\<lparr>browser_close_r := Inl (Error ''Connection closed'')\<rparr>"

definition env_stop_fails :: "unit env" where
  "env_stop_fails = (env_ok ())\<lparr>stop_r := Inl (Error ''Connection closed'')\<rparr>"

text \<open>Partial set-up: \<^verbatim>\<open>browser.new_context()\<close> raises; in the second, closing the browser raises too.\<close>

definition env_no_context :: "unit env" where
  "env_no_context = (env_ok ())\<lparr>new_context_r := Inl (Error ''Browser has been closed'')\<rparr>"

definition env_no_context_close_fails :: "unit env" where
  "env_no_context_close_fails =
     env_no_context\<lparr>browser_close_r := Inl (Error ''Connection closed'')\<rparr>"

text \<open>The element of the first click step never resolves; in the second, closing the context raises too.\<close>

definition env_toggle_missing :: "unit env" where
  "env_toggle_missing =
     (env_ok ())\<lparr>click_r := (\<lambda>k. if k = 1 then Inl (TimeoutError ''Timeout 5000ms exceeded.'')
                               else Inr ())\<rparr>"

definition env_toggle_missing_close_fails :: "unit env" where
  "env_toggle_missing_close_fails =
     env_toggle_missing\<lparr>context_close_r := Inl (Error ''Connection closed'')\<rparr>"

definition env_toggle_missing_browser_close_fails :: "unit env" where
  "env_toggle_missing_browser_close_fails =
     env_toggle_missing\<lparr>browser_close_r := Inl (Error ''Connection closed'')\<rparr>"

definition env_toggle_missing_stop_fails :: "unit env" where
  "env_toggle_missing_stop_fails =
     env_toggle_missing\<lparr>stop_r := Inl (Error ''Connection closed'')\<rparr>"

text \<open>Every call returns and the interpreter runs with \<^verbatim>\<open>-O\<close>.\<close>

definition env_optimised :: "unit env" where
  "env_optimised = (env_ok ())\<lparr>assertions_on := False\<rparr>"

text \<open>
  The page does not become ready in time, nor does its main frame; a second frame
  detaches during its wait; a third one is ready.
\<close>

definition env_not_ready :: "unit env" where
  "env_not_ready =
     (env_ok ())\<lparr>page_ready_r := Inl (TimeoutError ''Timeout 3000ms exceeded.''),
                 frames_r := [(5, Inl (TimeoutError ''Timeout 3000ms exceeded.'')),
                              (6, Inl (Error ''Frame was detached'')),
                              (7, Inr ())]\<rparr>"

text \<open>The second click opens a new page (object 8), which from then on is the last one.\<close>

definition env_popup :: "unit env" where
  "env_popup = (env_ok ())\<lparr>pages_r := (\<lambda>k. if k < 3 then [4] else [4, 8])\<rparr>"

text \<open>
  What the query endpoint answers, in the terms of the specification (sections 3 and 6):
  the issue records and the time the request took. The script is parametric in it.
\<close>

record issue =
  issue_id :: nat
  lat :: real
  lng :: real
  status :: string

record query_result =
  records :: "issue list"
  elapsed_ms :: nat

text \<open>An open issue in Paris, some 5800 km from the query centre (40.7128, -74.0060).\<close>

definition far_issue :: issue where
  "far_issue = \<lparr>issue_id = 7, lat = 48.8566, lng = 2.3522, status = ''open''\<rparr>"

text \<open>An open issue at the query centre itself.\<close>

definition near_issue :: issue where
  "near_issue = \<lparr>issue_id = 1, lat = 40.7128, lng = -74.0060, status = ''open''\<rparr>"

section \<open>Properties\<close>

subsection \<open>Sequencing, and actions that leave the locals alone\<close>

lemma and_then_Inr: "m s = (Inr x, s') \<Longrightarrow> and_then m f s = f x s'"
  by (simp add: and_then_def)

lemma quiet_return: "quiet (py_return x)"
  unfolding quiet_def py_return_def by (intro allI exI[of _ "[]"]) simp

lemma quiet_raise: "quiet (py_raise e)"
  unfolding quiet_def py_raise_def by (intro allI exI[of _ "[]"]) simp

lemma quiet_call: "\<not> is_release ev \<Longrightarrow> quiet (call ev r)"
  unfolding quiet_def call_def log_event_def by (intro allI exI[of _ "[ev]"]) simp

lemma quiet_and_then:
  assumes m: "quiet m" and f: "\<And>x. quiet (f x)"
  shows "quiet (and_then m f)"
  unfolding quiet_def
proof
  fix s
  obtain r s1 where ms: "m s = (r, s1)" by (cases "m s")
  from m ms obtain evs1 where s1: "s1 = s\<lparr>trace := trace s @ evs1\<rparr>" and q1: "\<not> list_ex is_release evs1"
    unfolding quiet_def by (metis snd_conv)
  show "\<exists>evs. snd (and_then m f s) = s\<lparr>trace := trace s @ evs\<rparr> \<and> \<not> list_ex is_release evs"
  proof (cases r)
    case (Inl e)
    with ms s1 q1 show ?thesis by (auto simp: and_then_def)
  next
    case (Inr x)
    from f[of x] obtain evs2 where s2: "snd (f x s1) = s1\<lparr>trace := trace s1 @ evs2\<rparr>"
      and q2: "\<not> list_ex is_release evs2"
      unfolding quiet_def by blast
    have "snd (and_then m f s) = s\<lparr>trace := trace s @ (evs1 @ evs2)\<rparr>"
      using ms Inr s1 s2 by (simp add: and_then_def)
    moreover have "\<not> list_ex is_release (evs1 @ evs2)" using q1 q2 by simp
    ultimately show ?thesis by blast
  qed
qed

lemma quiet_except: "quiet m \<Longrightarrow> quiet (except_Error_pass m)"
  unfolding quiet_def except_Error_pass_def
  by (auto split: prod.splits sum.splits) (metis snd_conv)+

lemma quiet_seq: "(\<And>m. m \<in> set ms \<Longrightarrow> quiet m) \<Longrightarrow> quiet (seq ms)"
  by (induction ms) (auto intro: quiet_return quiet_and_then)

lemma quiet_wait_frames: "quiet (wait_frames fs)"
  by (induction fs rule: wait_frames.induct)
     (auto intro!: quiet_return quiet_and_then quiet_except quiet_call)

lemma quiet_navigate: "quiet (navigate env page)"
  unfolding navigate_def
  by (intro quiet_and_then quiet_except quiet_call quiet_wait_frames) simp_all

lemma quiet_pages_last: "quiet (pages_last ctx ps)"
  unfolding quiet_def pages_last_def log_event_def
  by (intro allI exI[of _ "[Pages_read ctx]"]) simp

lemma quiet_click_step: "quiet (click_step env ctx page k xpath)"
  unfolding click_step_def
  by (intro quiet_and_then quiet_pages_last quiet_return quiet_call) simp_all

lemma quiet_exec_action: "quiet (exec_action env ctx page a)"
  by (cases a) (auto intro: quiet_click_step quiet_call quiet_raise quiet_return)

lemma quiet_script: "quiet (seq (map (exec_action env ctx page) as))"
  by (rule quiet_seq) (auto intro: quiet_exec_action)

lemma quiet_interact: "quiet (interact env ctx page)"
  unfolding interact_def by (rule quiet_script)

lemma quiet_rest: "quiet (and_then (navigate env page) (\<lambda>_. interact env ctx page))"
  by (intro quiet_and_then quiet_navigate quiet_interact)

subsection \<open>The locals and the trace after the \<^verbatim>\<open>try\<close> body\<close>

lemma acquire_state:
  "\<exists>evs. snd (acquire env init) =
      \<lparr>pw = acquired_pw env, browser = acquired_browser env,
       context_h = acquired_context env, trace = evs\<rparr> \<and> \<not> list_ex is_release evs"
  by (simp add: acquire_def and_then_def call_def log_event_def set_pw_def set_browser_def
      set_context_def py_return_def init_def acquired_pw_def acquired_browser_def
      acquired_context_def split: sum.splits)

lemma body_state:
  "\<exists>evs. snd (try_body env init) =
      \<lparr>pw = acquired_pw env, browser = acquired_browser env,
       context_h = acquired_context env, trace = evs\<rparr> \<and> \<not> list_ex is_release evs"
proof -
  obtain r s1 where a: "acquire env init = (r, s1)" by (cases "acquire env init")
  from acquire_state[of env] a obtain evs1 where
    s1: "s1 = \<lparr>pw = acquired_pw env, browser = acquired_browser env,
       context_h = acquired_context env, trace = evs1\<rparr>" and q1: "\<not> list_ex is_release evs1"
    by auto
  show ?thesis
  proof (cases r)
    case (Inl e)
    with a s1 q1 show ?thesis by (simp add: try_body_def and_then_def)
  next
    case (Inr cp)
    obtain c pg where cp: "cp = (c, pg)" by (cases cp)
    from quiet_rest[of env pg c] obtain evs2 where
      s2: "snd (and_then (navigate env pg) (\<lambda>_. interact env c pg) s1) = s1\<lparr>trace := trace s1 @ evs2\<rparr>"
      and q2: "\<not> list_ex is_release evs2"
      unfolding quiet_def by blast
    have "snd (try_body env init) = s1\<lparr>trace := trace s1 @ evs2\<rparr>"
      using a Inr cp s2 by (simp add: try_body_def and_then_Inr)
    with s1 q1 q2 show ?thesis by simp
  qed
qed

subsection \<open>With assertions on, the \<^verbatim>\<open>try\<close> body never returns normally\<close>

lemma seq_raises:
  "assertions_on env \<Longrightarrow>
   fst (seq (map (exec_action env ctx page) (as @ Assert_False msg # rest)) s) \<noteq> Inr ()"
  by (induction as arbitrary: s) (auto simp: and_then_def py_raise_def split: prod.splits sum.splits)

lemma interact_raises: "assertions_on env \<Longrightarrow> fst (interact env ctx page s) \<noteq> Inr ()"
proof -
  assume on: "assertions_on env"
  have "script = butlast (butlast script) @ Assert_False assert_message # [Sleep 5]"
    by (simp add: script_def)
  then show ?thesis unfolding interact_def using seq_raises[OF on] by metis
qed

lemma body_raises: "assertions_on env \<Longrightarrow> fst (try_body env init) \<noteq> Inr ()"
  unfolding try_body_def
  by (auto simp: and_then_def interact_raises split: prod.splits sum.splits)

text \<open>An exception in the body leaves the run, unless one of the teardown does.\<close>

lemma run_raises_if_body_raises: "fst (try_body env init) \<noteq> Inr () \<Longrightarrow> fst (run_test env) \<noteq> Inr ()"
  by (auto simp: run_test_def try_finally_def split: prod.splits sum.splits)

subsection \<open>Running the script in an environment where a prefix completes\<close>

lemma acquire_ok:
  "session_ok env p b c pg \<Longrightarrow>
   acquire env init =
     (Inr (c, pg), \<lparr>pw = Some p, browser = Some b, context_h = Some c,
                    trace = session_events p b c\<rparr>)"
  by (simp add: session_ok_def acquire_def and_then_def call_def log_event_def set_pw_def
      set_browser_def set_context_def py_return_def init_def session_events_def)

lemma wait_frames_ok:
  "list_all (\<lambda>fr. ready_or_api_error (snd fr)) fs \<Longrightarrow>
   wait_frames fs s =
     (Inr (), s\<lparr>trace := trace s @
        map (\<lambda>fr. Frame_wait_for_load_state (fst fr) ''domcontentloaded'' 3000) fs\<rparr>)"
proof (induction fs arbitrary: s)
  case Nil
  show ?case by (simp add: py_return_def)
next
  case (Cons fr fs)
  obtain f r where fr: "fr = (f, r)" by (cases fr)
  from Cons.prems fr have r: "ready_or_api_error r"
    and rest: "list_all (\<lambda>fr. ready_or_api_error (snd fr)) fs" by simp_all
  have "except_Error_pass (call (Frame_wait_for_load_state f ''domcontentloaded'' 3000) r) s =
          (Inr (), log_event (Frame_wait_for_load_state f ''domcontentloaded'' 3000) s)"
    using r by (cases r) (simp_all add: except_Error_pass_def call_def)
  then show ?case
    using Cons.IH[OF rest] fr by (simp add: and_then_Inr log_event_def)
qed

lemma navigate_ok:
  assumes "navigation_ok env"
  shows "navigate env page s = (Inr (), s\<lparr>trace := trace s @ navigation_events env page\<rparr>)"
proof -
  from assms have g: "goto_r env = Inr ()" and r: "ready_or_api_error (page_ready_r env)"
    and fs: "list_all (\<lambda>fr. ready_or_api_error (snd fr)) (frames_r env)"
    by (simp_all add: navigation_ok_def)
  have w: "\<And>t. except_Error_pass
          (call (Page_wait_for_load_state page ''domcontentloaded'' 3000) (page_ready_r env)) t =
        (Inr (), log_event (Page_wait_for_load_state page ''domcontentloaded'' 3000) t)"
    using r by (cases "page_ready_r env") (simp_all add: except_Error_pass_def call_def)
  show ?thesis
    unfolding navigate_def
    by (simp add: and_then_def call_def g w wait_frames_ok[OF fs] log_event_def navigation_events_def)
qed

lemma click_step_ok:
  "action_ok env (Click_at k xpath) \<Longrightarrow>
   click_step env ctx page k xpath s =
     (Inr (), s\<lparr>trace := trace s @ step_events env ctx page k xpath\<rparr>)"
  by (simp add: click_step_def pages_last_def and_then_def call_def log_event_def py_return_def
      step_events_def)

lemma exec_action_ok:
  "action_ok env a \<Longrightarrow>
   exec_action env ctx page a s = (Inr (), s\<lparr>trace := trace s @ action_events env ctx page a\<rparr>)"
proof (cases a)
  case (Click_at k xpath)
  assume "action_ok env a"
  with Click_at show ?thesis by (simp add: click_step_ok)
next
  case Goto_api
  assume "action_ok env a"
  with Goto_api show ?thesis
    by (cases "api_goto_r env") (simp_all add: call_def log_event_def discard_def)
next
  case (Assert_False msg)
  assume "action_ok env a"
  with Assert_False show ?thesis by (simp add: py_return_def)
next
  case (Sleep n)
  assume "action_ok env a"
  with Sleep show ?thesis by (simp add: call_def log_event_def)
qed

lemma seq_prefix_ok:
  "list_all (action_ok env) pre \<Longrightarrow>
   seq (map (exec_action env ctx page) (pre @ rest)) s =
   seq (map (exec_action env ctx page) rest)
     (s\<lparr>trace := trace s @ concat (map (action_events env ctx page) pre)\<rparr>)"
proof (induction pre arbitrary: s)
  case Nil
  show ?case by simp
next
  case (Cons a pre)
  from Cons.prems have a: "action_ok env a" and pre: "list_all (action_ok env) pre" by simp_all
  show ?case
    using Cons.IH[OF pre] by (simp add: and_then_def exec_action_ok[OF a])
qed

text \<open>The state in which the statement after the completed prefix \<open>pre\<close> starts.\<close>

lemma body_reaches:
  assumes "session_ok env p b c pg" and "navigation_ok env"
    and "script = pre @ rest" and "list_all (action_ok env) pre"
  shows "try_body env init =
           seq (map (exec_action env c pg) rest)
             \<lparr>pw = Some p, browser = Some b, context_h = Some c,
              trace = session_events p b c @ navigation_events env pg @
                      concat (map (action_events env c pg) pre)\<rparr>"
proof -
  let ?s = "\<lparr>pw = Some p, browser = Some b, context_h = Some c,
             trace = session_events p b c @ navigation_events env pg\<rparr>"
  have "try_body env init = seq (map (exec_action env c pg) (pre @ rest)) ?s"
    unfolding try_body_def interact_def assms(3)
    by (simp add: and_then_def acquire_ok[OF assms(1)] navigate_ok[OF assms(2)]
        del: map_append)
  also have "\<dots> = seq (map (exec_action env c pg) rest)
      (?s\<lparr>trace := trace ?s @ concat (map (action_events env c pg) pre)\<rparr>)"
    by (rule seq_prefix_ok[OF assms(4)])
  finally show ?thesis by simp
qed

subsection \<open>The teardown\<close>

text \<open>
  The run after a body that ended with all three handles bound: the teardown stops at the
  first release call that raises, and that exception is the one that leaves the run.
\<close>

lemma run_bound:
  assumes "try_body env init =
             (r, \<lparr>pw = Some p, browser = Some b, context_h = Some c, trace = t\<rparr>)"
  shows "(release_ok env \<longrightarrow>
            fst (run_test env) = r \<and>
            events env = t @ [Context_close c, Browser_close b, Playwright_stop p]) \<and>
         (context_close_r env = Inl e \<longrightarrow>
            fst (run_test env) = Inl e \<and> events env = t @ [Context_close c]) \<and>
         (context_close_r env = Inr () \<and> browser_close_r env = Inl e \<longrightarrow>
            fst (run_test env) = Inl e \<and>
            events env = t @ [Context_close c, Browser_close b]) \<and>
         (context_close_r env = Inr () \<and> browser_close_r env = Inr () \<and> stop_r env = Inl e \<longrightarrow>
            fst (run_test env) = Inl e \<and>
            events env = t @ [Context_close c, Browser_close b, Playwright_stop p])"
  unfolding run_test_def try_finally_def events_def assms release_ok_def
  by (cases "context_close_r env"; cases "browser_close_r env"; cases "stop_r env")
     (simp_all add: teardown_def close_context_def close_browser_def stop_pw_def
        and_then_def call_def log_event_def py_return_def)

lemma filter_release_none: "\<not> list_ex is_release evs \<Longrightarrow> filter is_release evs = []"
  by (induction evs) auto

lemma filter_release_session: "filter is_release (session_events p b c) = []"
  by (simp add: session_events_def)

lemma filter_release_navigation: "filter is_release (navigation_events env page) = []"
  by (simp add: navigation_events_def filter_empty_conv)

lemma not_release_mem: "\<not> list_ex is_release evs \<Longrightarrow> is_release e \<Longrightarrow> e \<notin> set evs"
  by (auto simp: list_ex_iff)

lemmas teardown_defs = teardown_def close_context_def close_browser_def stop_pw_def
  and_then_def call_def log_event_def py_return_def

text \<open>The run, split into the body's result and the teardown from the body's state.\<close>

lemma run_test_split:
  obtains r evs where
    "try_body env init =
       (r, \<lparr>pw = acquired_pw env, browser = acquired_browser env,
            context_h = acquired_context env, trace = evs\<rparr>)"
    "\<not> list_ex is_release evs"
    "run_test env =
       (case teardown env \<lparr>pw = acquired_pw env, browser = acquired_browser env,
            context_h = acquired_context env, trace = evs\<rparr> of
          (Inl e, s) \<Rightarrow> (Inl e, s) | (Inr _, s) \<Rightarrow> (r, s))"
proof -
  from body_state[of env] obtain evs where
    s: "snd (try_body env init) = \<lparr>pw = acquired_pw env, browser = acquired_browser env,
            context_h = acquired_context env, trace = evs\<rparr>" and q: "\<not> list_ex is_release evs"
    by blast
  have b: "try_body env init = (fst (try_body env init), \<lparr>pw = acquired_pw env, browser = acquired_browser env,
            context_h = acquired_context env, trace = evs\<rparr>)"
    using s by (metis prod.collapse)
  have "run_test env =
       (case teardown env \<lparr>pw = acquired_pw env, browser = acquired_browser env,
            context_h = acquired_context env, trace = evs\<rparr> of
          (Inl e, s) \<Rightarrow> (Inl e, s) | (Inr _, s) \<Rightarrow> (fst (try_body env init), s))"
    unfolding run_test_def try_finally_def by (subst b) simp
  with b q show ?thesis using that by blast
qed

lemma takeWhile_quiet:
  "\<not> list_ex is_release evs \<Longrightarrow> list_all is_release rel \<Longrightarrow>
   takeWhile (\<lambda>e. \<not> is_release e) (evs @ rel) = evs"
  by (cases rel) (auto simp: list_ex_iff takeWhile_append2 takeWhile_append1)

lemma main_failed_if_body_raises: "fst (try_body env init) \<noteq> Inr () \<Longrightarrow> main env \<noteq> Passed"
  using run_raises_if_body_raises[of env]
  by (cases "fst (run_test env)") (simp_all add: main_def)

lemma main_never_passed: "assertions_on env \<Longrightarrow> main env \<noteq> Passed"
  by (rule main_failed_if_body_raises[OF body_raises])

text \<open>The teardown only appends to the trace.\<close>

lemma teardown_extends: "\<exists>evs. trace (snd (teardown env s)) = trace s @ evs"
  by (cases "context_h s"; cases "browser s"; cases "pw s";
      cases "context_close_r env"; cases "browser_close_r env"; cases "stop_r env")
     (simp_all add: teardown_defs)

lemma run_extends: "\<exists>evs. events env = trace (snd (try_body env init)) @ evs"
proof -
  obtain r s where b: "try_body env init = (r, s)" by (cases "try_body env init")
  obtain r' s' where t: "teardown env s = (r', s')" by (cases "teardown env s")
  from teardown_extends[of env s] t obtain evs where "trace s' = trace s @ evs" by auto
  then show ?thesis
    using b t by (cases r') (auto simp: events_def run_test_def try_finally_def)
qed

lemma quiet_extends: "quiet m \<Longrightarrow> \<exists>evs. trace (snd (m s)) = trace s @ evs"
proof -
  assume "quiet m"
  then obtain evs where "snd (m s) = s\<lparr>trace := trace s @ evs\<rparr>"
    unfolding quiet_def by blast
  then have "trace (snd (m s)) = trace s @ evs" by simp
  then show ?thesis ..
qed


lemma click_step_run:
  "pages_r env k \<noteq> [] \<Longrightarrow> settle_r env k = Inr () \<Longrightarrow>
   click_step env ctx page k xpath s =
     (click_r env k, s\<lparr>trace := trace s @ step_events env ctx page k xpath\<rparr>)"
  by (simp add: click_step_def pages_last_def and_then_def call_def log_event_def py_return_def
      step_events_def)

text \<open>The calls of a click step that is reached, whose page list is not empty and whose
  delay returns: they stand in the trace right after those of the completed prefix.\<close>

lemma step_reached:
  assumes "session_ok env p b c pg" and "navigation_ok env"
    and "script = pre @ Click_at k xpath # post" and "list_all (action_ok env) pre"
    and "pages_r env k \<noteq> []" and "settle_r env k = Inr ()"
  shows "\<exists>after. events env =
           session_events p b c @ navigation_events env pg @
           concat (map (action_events env c pg) pre) @ step_events env c pg k xpath @ after"
proof -
  let ?T = "session_events p b c @ navigation_events env pg @
            concat (map (action_events env c pg) pre)"
  let ?s0 = "\<lparr>pw = Some p, browser = Some b, context_h = Some c, trace = ?T\<rparr>"
  let ?s1 = "?s0\<lparr>trace := trace ?s0 @ step_events env c pg k xpath\<rparr>"
  have body: "try_body env init = seq (map (exec_action env c pg) (Click_at k xpath # post)) ?s0"
    by (rule body_reaches[OF assms(1-4)])
  have step: "click_step env c pg k xpath ?s0 = (click_r env k, ?s1)"
    by (rule click_step_run[OF assms(5,6)])
  have "\<exists>evs. trace (snd (try_body env init)) = trace ?s1 @ evs"
  proof (cases "click_r env k")
    case (Inl e)
    then have "try_body env init = (Inl e, ?s1)"
      using body step by (simp add: and_then_def)
    then show ?thesis by simp
  next
    case (Inr u)
    then have "try_body env init = seq (map (exec_action env c pg) post) ?s1"
      using body step by (simp add: and_then_def)
    then show ?thesis
      using quiet_extends[OF quiet_script, of env c pg post ?s1] by simp
  qed
  then obtain evs where b: "trace (snd (try_body env init)) = ?T @ step_events env c pg k xpath @ evs"
    by auto
  from run_extends[of env] obtain evs' where "events env = trace (snd (try_body env init)) @ evs'"
    by blast
  with b have "events env = ?T @ step_events env c pg k xpath @ (evs @ evs')" by simp
  then show ?thesis by (metis append.assoc)
qed


text \<open>Unfolding everything, to run the script in a concrete environment.\<close>

lemmas model_defs = run_test_def try_finally_def try_body_def acquire_def navigate_def
  interact_def script_def click_step_def pages_last_def teardown_def close_context_def
  close_browser_def stop_pw_def and_then_def call_def log_event_def py_return_def py_raise_def
  except_Error_pass_def set_pw_def set_browser_def set_context_def init_def discard_def
  main_def events_def final_def

lemmas env_defs = env_ok_def env_context_close_fails_def env_browser_close_fails_def
  env_stop_fails_def env_no_context_def env_no_context_close_fails_def env_toggle_missing_def
  env_toggle_missing_close_fails_def env_toggle_missing_browser_close_fails_def
  env_toggle_missing_stop_fails_def env_optimised_def env_not_ready_def env_popup_def

section \<open>The claims\<close>

subsection \<open>C1: release of the session on every path\<close>

text \<open>
  Claim C1, as amended. On every path through the \<^verbatim>\<open>try\<close> body (its normal end, the
  assertion failure, or an exception raised by any call) the calls of the \<^verbatim>\<open>finally\<close>
  block are the last calls of the run and the body makes none of them; they are an initial
  part of the releases due for the acquired resources, in the order context, browser,
  driver, so none is made twice. When no release call raises, and more generally when
  neither \<^verbatim>\<open>context.close()\<close> nor \<^verbatim>\<open>browser.close()\<close> raises, every acquired resource is
  released, exactly once. When a release call raises, the releases after it are not made:
  if closing the acquired context raises, that close is the only release of the run; if
  closing the acquired browser raises, the releases are the close of the context (when
  acquired) and that of the browser, and the driver is not stopped.
\<close>

theorem release_once_unless_a_release_raises:
  "events env = takeWhile (\<lambda>e. \<not> is_release e) (events env) @ filter is_release (events env) \<and>
   filter is_release (events env) =
     take (length (filter is_release (events env))) (due_releases env) \<and>
   (release_ok env \<longrightarrow> filter is_release (events env) = due_releases env) \<and>
   ((acquired_context env = None \<or> \<not> isl (context_close_r env)) \<and>
    (acquired_browser env = None \<or> \<not> isl (browser_close_r env)) \<longrightarrow>
      filter is_release (events env) = due_releases env) \<and>
   (acquired_context env = Some c \<and> isl (context_close_r env) \<longrightarrow>
      filter is_release (events env) = [Context_close c]) \<and>
   ((acquired_context env = None \<or> \<not> isl (context_close_r env)) \<and>
    acquired_browser env = Some b \<and> isl (browser_close_r env) \<longrightarrow>
      filter is_release (events env) =
        (case acquired_context env of None \<Rightarrow> [] | Some c' \<Rightarrow> [Context_close c']) @
        [Browser_close b])"
proof -
  obtain r evs where
    run: "run_test env =
       (case teardown env \<lparr>pw = acquired_pw env, browser = acquired_browser env,
            context_h = acquired_context env, trace = evs\<rparr> of
          (Inl e, s) \<Rightarrow> (Inl e, s) | (Inr _, s) \<Rightarrow> (r, s))"
    and q: "\<not> list_ex is_release evs"
    by (rule run_test_split)
  note f = filter_release_none[OF q]
  have t: "\<And>rel. list_all is_release rel \<Longrightarrow> takeWhile (\<lambda>e. \<not> is_release e) (evs @ rel) = evs"
    using takeWhile_quiet[OF q] by blast
  have t0: "takeWhile (\<lambda>e. \<not> is_release e) evs = evs"
    using t[of "[]"] by simp
  show ?thesis
    unfolding events_def run due_releases_def release_ok_def
    by (cases "acquired_context env"; cases "acquired_browser env"; cases "acquired_pw env";
        cases "context_close_r env"; cases "browser_close_r env"; cases "stop_r env")
       (simp_all add: teardown_defs f t t0)
qed

text \<open>
  Four environments in which the set-up returns: no release call raises; only
  \<^verbatim>\<open>pw.stop()\<close> raises; \<^verbatim>\<open>context.close()\<close> raises; \<^verbatim>\<open>browser.close()\<close> raises.
\<close>

theorem release_once_witness:
  "(release_ok (env_ok ()) \<and>
    filter is_release (events (env_ok ())) =
      [Context_close 3, Browser_close 2, Playwright_stop 1]) \<and>
   (\<not> isl (context_close_r env_stop_fails) \<and> \<not> isl (browser_close_r env_stop_fails) \<and>
    filter is_release (events env_stop_fails) =
      [Context_close 3, Browser_close 2, Playwright_stop 1]) \<and>
   (acquired_context env_context_close_fails = Some 3 \<and>
    isl (context_close_r env_context_close_fails) \<and>
    filter is_release (events env_context_close_fails) = [Context_close 3]) \<and>
   (\<not> isl (context_close_r env_browser_close_fails) \<and>
    acquired_browser env_browser_close_fails = Some 2 \<and>
    isl (browser_close_r env_browser_close_fails) \<and>
    filter is_release (events env_browser_close_fails) = [Context_close 3, Browser_close 2])"
proof -
  have h: "release_ok (env_ok ())" by (simp add: release_ok_def env_ok_def)
  have a: "acquired_context env_context_close_fails = Some 3"
    "acquired_browser env_browser_close_fails = Some 2"
    "acquired_context env_browser_close_fails = Some 3"
    by (simp_all add: acquired_context_def acquired_browser_def env_defs)
  have r: "\<not> isl (context_close_r env_stop_fails)" "\<not> isl (browser_close_r env_stop_fails)"
    "isl (context_close_r env_context_close_fails)"
    "\<not> isl (context_close_r env_browser_close_fails)"
    "isl (browser_close_r env_browser_close_fails)"
    by (simp_all add: env_defs)
  have d: "due_releases (env_ok ()) = [Context_close 3, Browser_close 2, Playwright_stop 1]"
    "due_releases env_stop_fails = [Context_close 3, Browser_close 2, Playwright_stop 1]"
    by (simp_all add: due_releases_def acquired_context_def acquired_browser_def acquired_pw_def
        env_defs)
  from release_once_unless_a_release_raises[where env = "env_ok ()"]
    release_once_unless_a_release_raises[where env = env_stop_fails]
    release_once_unless_a_release_raises[where env = env_context_close_fails and c = 3]
    release_once_unless_a_release_raises[where env = env_browser_close_fails and b = 2]
    h a r d
  show ?thesis by simp
qed

text \<open>
  The claim as stated fails where \<^verbatim>\<open>context.close()\<close> raises: browser and driver were
  acquired and are never closed.
\<close>

theorem release_skipped_counterexample:
  "browser (final env_context_close_fails) = Some 2 \<and>
   pw (final env_context_close_fails) = Some 1 \<and>
   filter is_release (events env_context_close_fails) = [Context_close 3]"
  by (simp add: model_defs env_defs)

subsection \<open>C3: the teardown steps\<close>

text \<open>
  Claim C3, as amended. The release steps are attempted in the order context, browser,
  driver, each only when its handle is bound. No handler surrounds them: the first step that
  raises ends the teardown, the later steps are not attempted, and its exception is what the
  run raises, in place of the outcome of the \<^verbatim>\<open>try\<close> body. When no attempted step raises,
  all due releases are made and the outcome of the body stands.
\<close>

theorem teardown_failure_propagates:
  "(context_h (final env) = Some c \<and> context_close_r env = Inl e \<longrightarrow>
      filter is_release (events env) = [Context_close c] \<and> fst (run_test env) = Inl e) \<and>
   ((context_h (final env) = None \<or> context_close_r env = Inr ()) \<and>
    browser (final env) = Some b \<and> browser_close_r env = Inl e \<longrightarrow>
      filter is_release (events env) =
        (case context_h (final env) of None \<Rightarrow> [] | Some c' \<Rightarrow> [Context_close c']) @
        [Browser_close b] \<and>
      fst (run_test env) = Inl e) \<and>
   ((context_h (final env) = None \<or> context_close_r env = Inr ()) \<and>
    (browser (final env) = None \<or> browser_close_r env = Inr ()) \<and>
    pw (final env) = Some p \<and> stop_r env = Inl e \<longrightarrow>
      filter is_release (events env) = due_releases env \<and> fst (run_test env) = Inl e) \<and>
   ((context_h (final env) = None \<or> context_close_r env = Inr ()) \<and>
    (browser (final env) = None \<or> browser_close_r env = Inr ()) \<and>
    (pw (final env) = None \<or> stop_r env = Inr ()) \<longrightarrow>
      filter is_release (events env) = due_releases env \<and>
      fst (run_test env) = fst (try_body env init))"
proof -
  obtain r evs where
    body: "try_body env init =
       (r, \<lparr>pw = acquired_pw env, browser = acquired_browser env,
            context_h = acquired_context env, trace = evs\<rparr>)"
    and q: "\<not> list_ex is_release evs"
    and run: "run_test env =
       (case teardown env \<lparr>pw = acquired_pw env, browser = acquired_browser env,
            context_h = acquired_context env, trace = evs\<rparr> of
          (Inl e, s) \<Rightarrow> (Inl e, s) | (Inr _, s) \<Rightarrow> (r, s))"
    by (rule run_test_split)
  note f = filter_release_none[OF q]
  show ?thesis
    unfolding events_def final_def run body due_releases_def
    by (cases "acquired_context env"; cases "acquired_browser env"; cases "acquired_pw env";
        cases "context_close_r env"; cases "browser_close_r env"; cases "stop_r env")
       (simp_all add: teardown_defs f)
qed

text \<open>One environment for each of the four cases.\<close>

theorem teardown_failure_propagates_witness:
  "(context_h (final env_context_close_fails) = Some 3 \<and>
    context_close_r env_context_close_fails = Inl (Error ''Connection closed'') \<and>
    filter is_release (events env_context_close_fails) = [Context_close 3] \<and>
    fst (run_test env_context_close_fails) = Inl (Error ''Connection closed'')) \<and>
   (context_close_r env_no_context_close_fails = Inr () \<and>
    browser (final env_no_context_close_fails) = Some 2 \<and>
    browser_close_r env_no_context_close_fails = Inl (Error ''Connection closed'') \<and>
    filter is_release (events env_no_context_close_fails) = [Browser_close 2] \<and>
    fst (run_test env_no_context_close_fails) = Inl (Error ''Connection closed'')) \<and>
   (context_close_r env_stop_fails = Inr () \<and> browser_close_r env_stop_fails = Inr () \<and>
    pw (final env_stop_fails) = Some 1 \<and>
    stop_r env_stop_fails = Inl (Error ''Connection closed'') \<and>
    filter is_release (events env_stop_fails) =
      [Context_close 3, Browser_close 2, Playwright_stop 1] \<and>
    fst (run_test env_stop_fails) = Inl (Error ''Connection closed'')) \<and>
   (context_close_r (env_ok ()) = Inr () \<and> browser_close_r (env_ok ()) = Inr () \<and>
    stop_r (env_ok ()) = Inr () \<and>
    filter is_release (events (env_ok ())) =
      [Context_close 3, Browser_close 2, Playwright_stop 1] \<and>
    fst (run_test (env_ok ())) = fst (try_body (env_ok ()) init))"
proof -
  have h1: "context_h (final env_context_close_fails) = Some 3"
    and h2: "browser (final env_no_context_close_fails) = Some 2"
    and h2': "context_h (final env_no_context_close_fails) = None"
    and h3: "pw (final env_stop_fails) = Some 1"
    by (simp_all add: model_defs env_defs)
  have d3: "due_releases env_stop_fails = [Context_close 3, Browser_close 2, Playwright_stop 1]"
    and d4: "due_releases (env_ok ()) = [Context_close 3, Browser_close 2, Playwright_stop 1]"
    by (simp_all add: due_releases_def acquired_context_def acquired_browser_def
        acquired_pw_def env_defs)
  have r: "context_close_r env_context_close_fails = Inl (Error ''Connection closed'')"
    "context_close_r env_no_context_close_fails = Inr ()"
    "browser_close_r env_no_context_close_fails = Inl (Error ''Connection closed'')"
    "context_close_r env_stop_fails = Inr ()" "browser_close_r env_stop_fails = Inr ()"
    "stop_r env_stop_fails = Inl (Error ''Connection closed'')"
    "context_close_r (env_ok ()) = Inr ()" "browser_close_r (env_ok ()) = Inr ()"
    "stop_r (env_ok ()) = Inr ()"
    by (simp_all add: env_defs)
  from teardown_failure_propagates[where env = env_context_close_fails and c = 3
        and e = "Error ''Connection closed''"]
    teardown_failure_propagates[where env = env_no_context_close_fails and b = 2
        and e = "Error ''Connection closed''"]
    teardown_failure_propagates[where env = env_stop_fails and p = 1
        and e = "Error ''Connection closed''"]
    teardown_failure_propagates[where env = "env_ok ()"]
    h1 h2 h2' h3 d3 d4 r
  show ?thesis by simp
qed

text \<open>
  The claim as stated fails where \<^verbatim>\<open>browser.close()\<close> raises: the driver is bound and is
  not stopped, and the run ends with the teardown's exception, not with the assertion
  failure that the body raised.
\<close>

theorem teardown_masks_counterexample:
  "pw (final env_browser_close_fails) = Some 1 \<and>
   filter is_release (events env_browser_close_fails) = [Context_close 3, Browser_close 2] \<and>
   fst (try_body env_browser_close_fails init) = Inl (AssertionError assert_message) \<and>
   main env_browser_close_fails = Failed (Error ''Connection closed'')"
  by (simp add: model_defs env_defs)

subsection \<open>C9: teardown after a partial set-up\<close>

text \<open>
  Claim C9, as amended. A release call is made only on a bound handle, and the handles bound
  are those of the set-up calls that returned. Conversely the context is closed whenever it
  is bound; the browser is closed when it is bound and closing the context did not raise;
  the driver is stopped when it is bound and neither earlier close raised.
\<close>

theorem release_iff_bound_and_reached:
  "(Context_close c \<in> set (events env) \<longleftrightarrow> context_h (final env) = Some c) \<and>
   (Browser_close b \<in> set (events env) \<longleftrightarrow>
      browser (final env) = Some b \<and>
      (context_h (final env) = None \<or> \<not> isl (context_close_r env))) \<and>
   (Playwright_stop p \<in> set (events env) \<longleftrightarrow>
      pw (final env) = Some p \<and>
      (context_h (final env) = None \<or> \<not> isl (context_close_r env)) \<and>
      (browser (final env) = None \<or> \<not> isl (browser_close_r env))) \<and>
   pw (final env) = acquired_pw env \<and>
   browser (final env) = acquired_browser env \<and>
   context_h (final env) = acquired_context env"
proof -
  obtain r evs where
    run: "run_test env =
       (case teardown env \<lparr>pw = acquired_pw env, browser = acquired_browser env,
            context_h = acquired_context env, trace = evs\<rparr> of
          (Inl e, s) \<Rightarrow> (Inl e, s) | (Inr _, s) \<Rightarrow> (r, s))"
    and q: "\<not> list_ex is_release evs"
    by (rule run_test_split)
  have n: "Context_close c \<notin> set evs" "Browser_close b \<notin> set evs" "Playwright_stop p \<notin> set evs"
    using q by (simp_all add: not_release_mem)
  show ?thesis
    unfolding events_def final_def run
    using n
    by (cases "acquired_context env"; cases "acquired_browser env"; cases "acquired_pw env";
        cases "context_close_r env"; cases "browser_close_r env"; cases "stop_r env")
       (auto simp: teardown_defs)
qed

text \<open>
  Where \<^verbatim>\<open>browser.new_context()\<close> raises: no context is bound and none is closed, the
  browser and the driver are bound and released.
\<close>

theorem release_iff_bound_and_reached_witness:
  "context_h (final env_no_context) = None \<and> \<not> isl (browser_close_r env_no_context) \<and>
   Context_close 3 \<notin> set (events env_no_context) \<and>
   Browser_close 2 \<in> set (events env_no_context) \<and>
   Playwright_stop 1 \<in> set (events env_no_context)"
proof -
  have a: "acquired_pw env_no_context = Some 1" "acquired_browser env_no_context = Some 2"
    "acquired_context env_no_context = None"
    by (simp_all add: acquired_context_def acquired_browser_def acquired_pw_def env_defs)
  have r: "\<not> isl (browser_close_r env_no_context)" by (simp add: env_defs)
  from release_iff_bound_and_reached[where env = env_no_context and c = 3 and b = 2 and p = 1] a r show ?thesis by simp
qed

text \<open>
  The claim as stated fails where \<^verbatim>\<open>browser.new_context()\<close> raises and then
  \<^verbatim>\<open>browser.close()\<close> raises: the driver was acquired and is not stopped.
\<close>

theorem acquired_not_released_counterexample:
  "pw (final env_no_context_close_fails) = Some 1 \<and>
   filter is_release (events env_no_context_close_fails) = [Browser_close 2]"
  by (simp add: model_defs env_defs)

subsection \<open>C4: the unconditional assertion\<close>

text \<open>
  Claim C4, as amended. With assertions on (the interpreter's default), in every run in
  which the set-up, the navigation and all ten statements before the assertion complete,
  the \<^verbatim>\<open>try\<close> body ends with the \<^verbatim>\<open>AssertionError\<close> whose message says that the expected
  result is unknown, and the run does not pass. When no release call raises, that assertion
  failure is the outcome of the run, and the run makes no call beyond those statements and
  the three releases. When a release call raises, the run fails with the exception of the
  first release call that raises, and the releases after it are not made.
\<close>

theorem completed_steps_end_in_assertion_failure:
  assumes "assertions_on env" and "session_ok env p b c pg" and "navigation_ok env"
    and "script = pre @ Assert_False msg # post" and "list_all (action_ok env) pre"
  shows "msg = assert_message \<and>
         try_body env init =
           (Inl (AssertionError assert_message),
            \<lparr>pw = Some p, browser = Some b, context_h = Some c,
             trace = session_events p b c @ navigation_events env pg @
                     concat (map (action_events env c pg) pre)\<rparr>) \<and>
         main env \<noteq> Passed \<and>
         (release_ok env \<longrightarrow>
            main env = Failed (AssertionError assert_message) \<and>
            events env =
              session_events p b c @ navigation_events env pg @
              concat (map (action_events env c pg) pre) @
              [Context_close c, Browser_close b, Playwright_stop p]) \<and>
         (context_close_r env = Inl e \<longrightarrow>
            main env = Failed e \<and>
            events env =
              session_events p b c @ navigation_events env pg @
              concat (map (action_events env c pg) pre) @ [Context_close c]) \<and>
         (context_close_r env = Inr () \<and> browser_close_r env = Inl e \<longrightarrow>
            main env = Failed e \<and>
            events env =
              session_events p b c @ navigation_events env pg @
              concat (map (action_events env c pg) pre) @
              [Context_close c, Browser_close b]) \<and>
         (context_close_r env = Inr () \<and> browser_close_r env = Inr () \<and> stop_r env = Inl e \<longrightarrow>
            main env = Failed e \<and>
            events env =
              session_events p b c @ navigation_events env pg @
              concat (map (action_events env c pg) pre) @
              [Context_close c, Browser_close b, Playwright_stop p])"
proof -
  let ?T = "session_events p b c @ navigation_events env pg @
            concat (map (action_events env c pg) pre)"
  let ?s0 = "\<lparr>pw = Some p, browser = Some b, context_h = Some c, trace = ?T\<rparr>"
  have "Assert_False msg \<in> set (pre @ Assert_False msg # post)" by simp
  then have "Assert_False msg \<in> set script" unfolding assms(4) .
  then have msg: "msg = assert_message" by (simp add: script_def)
  have "try_body env init = seq (map (exec_action env c pg) (Assert_False msg # post)) ?s0"
    by (rule body_reaches[OF assms(2-5)])
  then have body: "try_body env init = (Inl (AssertionError assert_message), ?s0)"
    by (simp add: and_then_def py_raise_def msg assms(1))
  from run_bound[OF body, of e] body msg main_never_passed[OF assms(1)]
  show ?thesis by (simp add: main_def)
qed

text \<open>
  Every statement before the assertion completes, in four environments: no release call
  raises, or the first, the second or the third one does.
\<close>

theorem completed_steps_witness:
  "(assertions_on (env_ok ()) \<and> session_ok (env_ok ()) 1 2 3 4 \<and> navigation_ok (env_ok ()) \<and>
    script = take 10 script @ Assert_False assert_message # drop 11 script \<and>
    list_all (action_ok (env_ok ())) (take 10 script) \<and> release_ok (env_ok ()) \<and>
    main (env_ok ()) \<noteq> Passed \<and>
    main (env_ok ()) = Failed (AssertionError assert_message)) \<and>
   (assertions_on env_context_close_fails \<and> session_ok env_context_close_fails 1 2 3 4 \<and>
    navigation_ok env_context_close_fails \<and>
    list_all (action_ok env_context_close_fails) (take 10 script) \<and>
    context_close_r env_context_close_fails = Inl (Error ''Connection closed'') \<and>
    main env_context_close_fails = Failed (Error ''Connection closed'')) \<and>
   (assertions_on env_browser_close_fails \<and> session_ok env_browser_close_fails 1 2 3 4 \<and>
    navigation_ok env_browser_close_fails \<and>
    list_all (action_ok env_browser_close_fails) (take 10 script) \<and>
    context_close_r env_browser_close_fails = Inr () \<and>
    browser_close_r env_browser_close_fails = Inl (Error ''Connection closed'') \<and>
    main env_browser_close_fails = Failed (Error ''Connection closed'')) \<and>
   (assertions_on env_stop_fails \<and> session_ok env_stop_fails 1 2 3 4 \<and>
    navigation_ok env_stop_fails \<and>
    list_all (action_ok env_stop_fails) (take 10 script) \<and>
    context_close_r env_stop_fails = Inr () \<and> browser_close_r env_stop_fails = Inr () \<and>
    stop_r env_stop_fails = Inl (Error ''Connection closed'') \<and>
    main env_stop_fails = Failed (Error ''Connection closed''))"
proof -
  have h3: "script = take 10 script @ Assert_False assert_message # drop 11 script"
    by (simp add: script_def)
  have a: "assertions_on (env_ok ())" "session_ok (env_ok ()) 1 2 3 4" "navigation_ok (env_ok ())"
    "list_all (action_ok (env_ok ())) (take 10 script)" "release_ok (env_ok ())"
    by (simp_all add: session_ok_def navigation_ok_def release_ok_def script_def env_defs)
  have b: "assertions_on env_context_close_fails" "session_ok env_context_close_fails 1 2 3 4"
    "navigation_ok env_context_close_fails"
    "list_all (action_ok env_context_close_fails) (take 10 script)"
    "context_close_r env_context_close_fails = Inl (Error ''Connection closed'')"
    by (simp_all add: session_ok_def navigation_ok_def script_def env_defs)
  have c: "assertions_on env_browser_close_fails" "session_ok env_browser_close_fails 1 2 3 4"
    "navigation_ok env_browser_close_fails"
    "list_all (action_ok env_browser_close_fails) (take 10 script)"
    "context_close_r env_browser_close_fails = Inr ()"
    "browser_close_r env_browser_close_fails = Inl (Error ''Connection closed'')"
    by (simp_all add: session_ok_def navigation_ok_def script_def env_defs)
  have d: "assertions_on env_stop_fails" "session_ok env_stop_fails 1 2 3 4"
    "navigation_ok env_stop_fails"
    "list_all (action_ok env_stop_fails) (take 10 script)"
    "context_close_r env_stop_fails = Inr ()" "browser_close_r env_stop_fails = Inr ()"
    "stop_r env_stop_fails = Inl (Error ''Connection closed'')"
    by (simp_all add: session_ok_def navigation_ok_def script_def env_defs)
  from completed_steps_end_in_assertion_failure[OF a(1-3) h3 a(4)]
    completed_steps_end_in_assertion_failure[OF b(1-3) h3 b(4),
      where e = "Error ''Connection closed''"]
    completed_steps_end_in_assertion_failure[OF c(1-3) h3 c(4),
      where e = "Error ''Connection closed''"]
    completed_steps_end_in_assertion_failure[OF d(1-3) h3 d(4),
      where e = "Error ''Connection closed''"]
    h3 a b c d
  show ?thesis by blast
qed

text \<open>
  The claim as stated fails in two ways. Where all steps complete and \<^verbatim>\<open>pw.stop()\<close>
  raises, the run ends with that exception, not with the assertion failure. And where all
  steps complete and the interpreter runs with \<^verbatim>\<open>-O\<close>, the assertion is no statement, the
  sleep of line 104 is awaited, and the run passes.
\<close>

theorem outcome_replaced_counterexample:
  "session_ok env_stop_fails 1 2 3 4 \<and> navigation_ok env_stop_fails \<and>
   list_all (action_ok env_stop_fails) (take 10 script) \<and>
   fst (try_body env_stop_fails init) = Inl (AssertionError assert_message) \<and>
   main env_stop_fails = Failed (Error ''Connection closed'') \<and>
   session_ok env_optimised 1 2 3 4 \<and> navigation_ok env_optimised \<and>
   list_all (action_ok env_optimised) (take 10 script) \<and>
   Asyncio_sleep 5 \<in> set (events env_optimised) \<and>
   main env_optimised = Passed"
  by (simp add: model_defs env_defs session_ok_def navigation_ok_def)

subsection \<open>C5: readiness waits\<close>

text \<open>
  Claim C5. Once the first navigation has committed, a readiness wait of the page or of any
  frame of \<^verbatim>\<open>page.frames\<close> that times out or raises another Playwright error (a detached
  frame among them) is swallowed where it occurs: the navigation phase returns normally,
  having attempted the wait of the page and of every frame in turn; with no frames the loop
  does nothing; and in the run the first scripted step starts (it reads
  \<^verbatim>\<open>context.pages\<close>) right after the last wait.
\<close>

theorem readiness_failures_are_swallowed:
  assumes "goto_r env = Inr ()" and "ready_or_api_error (page_ready_r env)"
    and "list_all (\<lambda>fr. ready_or_api_error (snd fr)) (frames_r env)"
  shows "navigate env page s =
           (Inr (), s\<lparr>trace := trace s @
              [Goto page ''http://localhost:3000'' (Some ''commit'') 10000,
               Page_wait_for_load_state page ''domcontentloaded'' 3000,
               Frames_read page] @
              map (\<lambda>fr. Frame_wait_for_load_state (fst fr) ''domcontentloaded'' 3000)
                (frames_r env)\<rparr>) \<and>
         (frames_r env = [] \<longrightarrow> wait_frames (frames_r env) s = (Inr (), s)) \<and>
         (session_ok env p b c pg \<longrightarrow>
            (\<exists>after. events env =
               session_events p b c @
               [Goto pg ''http://localhost:3000'' (Some ''commit'') 10000,
                Page_wait_for_load_state pg ''domcontentloaded'' 3000,
                Frames_read pg] @
               map (\<lambda>fr. Frame_wait_for_load_state (fst fr) ''domcontentloaded'' 3000)
                 (frames_r env) @
               Pages_read c # after))"
proof -
  have nav: "navigation_ok env" using assms by (simp add: navigation_ok_def)
  have 1: "navigate env page s = (Inr (), s\<lparr>trace := trace s @ navigation_events env page\<rparr>)"
    by (rule navigate_ok[OF nav])
  have 2: "frames_r env = [] \<longrightarrow> wait_frames (frames_r env) s = (Inr (), s)"
    by (simp add: py_return_def)
  have 3: "\<exists>after. events env =
             session_events p b c @ navigation_events env pg @ Pages_read c # after"
    if ok: "session_ok env p b c pg"
  proof -
    let ?s0 = "\<lparr>pw = Some p, browser = Some b, context_h = Some c,
                trace = session_events p b c @ navigation_events env pg\<rparr>"
    have "try_body env init = seq (map (exec_action env c pg) script) ?s0"
      using body_reaches[OF ok nav, of "[]" script] by simp
    then have body: "try_body env init =
        and_then (click_step env c pg 1 xpath_header_a2)
          (\<lambda>_. seq (map (exec_action env c pg) (tl script))) ?s0"
      by (simp add: script_def)
    have q: "quiet (and_then (py_return \<lparr>loc_page = frame, selector = xpath_header_a2, nth_index = 0\<rparr>) (\<lambda>elem.
               and_then (call (Wait_for_timeout pg 3000) (settle_r env 1)) (\<lambda>_.
               call (Click elem 5000) (click_r env 1))))" for frame
      by (intro quiet_and_then quiet_return quiet_call) simp_all
    let ?s1 = "log_event (Pages_read c) ?s0"
    have "\<exists>evs. trace (snd (try_body env init)) = trace ?s1 @ evs"
    proof (cases "pages_r env 1 = []")
      case True
      then have "try_body env init = (Inl IndexError, ?s1)"
        unfolding body by (simp add: click_step_def pages_last_def and_then_def)
      then show ?thesis by simp
    next
      case False
      let ?rest = "and_then
           (and_then (py_return \<lparr>loc_page = last (pages_r env 1), selector = xpath_header_a2, nth_index = 0\<rparr>) (\<lambda>elem.
               and_then (call (Wait_for_timeout pg 3000) (settle_r env 1)) (\<lambda>_.
               call (Click elem 5000) (click_r env 1))))
           (\<lambda>_. seq (map (exec_action env c pg) (tl script)))"
      have "try_body env init = ?rest ?s1"
        unfolding body using False
        by (simp add: click_step_def pages_last_def and_then_def split: prod.splits sum.splits)
      moreover have "quiet ?rest"
        by (intro quiet_and_then q quiet_script)
      ultimately show ?thesis using quiet_extends[of ?rest ?s1] by simp
    qed
    then obtain evs where
      "trace (snd (try_body env init)) =
         session_events p b c @ navigation_events env pg @ Pages_read c # evs"
      by (auto simp: log_event_def)
    moreover from run_extends[of env] obtain evs' where
      "events env = trace (snd (try_body env init)) @ evs'" by blast
    ultimately have "events env =
        session_events p b c @ navigation_events env pg @ Pages_read c # (evs @ evs')"
      by simp
    then show ?thesis by blast
  qed
  from 1 2 3 show ?thesis by (simp add: navigation_events_def)
qed

text \<open>
  The page and its main frame time out, a second frame detaches, a third is ready: all
  four waits are attempted and the first scripted step starts.
\<close>

theorem readiness_failures_witness:
  "goto_r env_not_ready = Inr () \<and> ready_or_api_error (page_ready_r env_not_ready) \<and>
   list_all (\<lambda>fr. ready_or_api_error (snd fr)) (frames_r env_not_ready) \<and>
   session_ok env_not_ready 1 2 3 4 \<and>
   fst (navigate env_not_ready 4 init) = Inr () \<and>
   (\<exists>after. events env_not_ready =
      session_events 1 2 3 @
      [Goto 4 ''http://localhost:3000'' (Some ''commit'') 10000,
       Page_wait_for_load_state 4 ''domcontentloaded'' 3000,
       Frames_read 4,
       Frame_wait_for_load_state 5 ''domcontentloaded'' 3000,
       Frame_wait_for_load_state 6 ''domcontentloaded'' 3000,
       Frame_wait_for_load_state 7 ''domcontentloaded'' 3000] @
      Pages_read 3 # after)"
proof -
  have h1: "goto_r env_not_ready = Inr ()" by (simp add: env_defs)
  have h2: "ready_or_api_error (page_ready_r env_not_ready)" by (simp add: env_defs)
  have h3: "list_all (\<lambda>fr. ready_or_api_error (snd fr)) (frames_r env_not_ready)"
    by (simp add: env_defs)
  have h4: "session_ok env_not_ready 1 2 3 4" by (simp add: session_ok_def env_defs)
  have f: "frames_r env_not_ready =
      [(5, Inl (TimeoutError ''Timeout 3000ms exceeded.'')),
       (6, Inl (Error ''Frame was detached'')), (7, Inr ())]"
    by (simp add: env_defs)
  from readiness_failures_are_swallowed[OF h1 h2 h3, where page = 4 and s = init and p = 1
      and b = 2 and c = 3 and pg = 4] h1 h2 h3 h4
  show ?thesis by (simp add: f)
qed

subsection \<open>C6: a click whose element never resolves\<close>

text \<open>
  Claim C6, as amended. If a click step is reached and its \<^verbatim>\<open>elem.click(timeout=5000)\<close>
  raises \<^verbatim>\<open>TimeoutError\<close>, the \<^verbatim>\<open>try\<close> body ends there with that exception: the step's
  three calls were made once, no later statement of the script runs, and the run does not
  pass. When no release call raises, the run fails with that \<^verbatim>\<open>TimeoutError\<close> and context,
  browser and driver are released, once each, right after the failed click. When a release
  call raises, the run fails with the exception of the first release call that raises, and
  the releases after it are not made.
\<close>

theorem click_timeout_is_terminal:
  assumes "session_ok env p b c pg" and "navigation_ok env"
    and "script = pre @ Click_at k xpath # post" and "list_all (action_ok env) pre"
    and "pages_r env k \<noteq> []" and "settle_r env k = Inr ()"
    and "click_r env k = Inl (TimeoutError msg)"
  shows "try_body env init =
           (Inl (TimeoutError msg),
            \<lparr>pw = Some p, browser = Some b, context_h = Some c,
             trace = session_events p b c @ navigation_events env pg @
                     concat (map (action_events env c pg) pre) @
                     [Pages_read c, Wait_for_timeout pg 3000,
                      Click \<lparr>loc_page = last (pages_r env k), selector = xpath, nth_index = 0\<rparr>
                        5000]\<rparr>) \<and>
         main env \<noteq> Passed \<and>
         (release_ok env \<longrightarrow>
            main env = Failed (TimeoutError msg) \<and>
            events env =
              session_events p b c @ navigation_events env pg @
              concat (map (action_events env c pg) pre) @
              [Pages_read c, Wait_for_timeout pg 3000,
               Click \<lparr>loc_page = last (pages_r env k), selector = xpath, nth_index = 0\<rparr> 5000] @
              [Context_close c, Browser_close b, Playwright_stop p]) \<and>
         (context_close_r env = Inl e \<longrightarrow>
            main env = Failed e \<and>
            events env =
              session_events p b c @ navigation_events env pg @
              concat (map (action_events env c pg) pre) @
              [Pages_read c, Wait_for_timeout pg 3000,
               Click \<lparr>loc_page = last (pages_r env k), selector = xpath, nth_index = 0\<rparr> 5000] @
              [Context_close c]) \<and>
         (context_close_r env = Inr () \<and> browser_close_r env = Inl e \<longrightarrow>
            main env = Failed e \<and>
            events env =
              session_events p b c @ navigation_events env pg @
              concat (map (action_events env c pg) pre) @
              [Pages_read c, Wait_for_timeout pg 3000,
               Click \<lparr>loc_page = last (pages_r env k), selector = xpath, nth_index = 0\<rparr> 5000] @
              [Context_close c, Browser_close b]) \<and>
         (context_close_r env = Inr () \<and> browser_close_r env = Inr () \<and> stop_r env = Inl e \<longrightarrow>
            main env = Failed e \<and>
            events env =
              session_events p b c @ navigation_events env pg @
              concat (map (action_events env c pg) pre) @
              [Pages_read c, Wait_for_timeout pg 3000,
               Click \<lparr>loc_page = last (pages_r env k), selector = xpath, nth_index = 0\<rparr> 5000] @
              [Context_close c, Browser_close b, Playwright_stop p])"
proof -
  let ?T = "session_events p b c @ navigation_events env pg @
            concat (map (action_events env c pg) pre)"
  let ?s0 = "\<lparr>pw = Some p, browser = Some b, context_h = Some c, trace = ?T\<rparr>"
  have "try_body env init = seq (map (exec_action env c pg) (Click_at k xpath # post)) ?s0"
    by (rule body_reaches[OF assms(1-4)])
  then have body: "try_body env init =
      (Inl (TimeoutError msg),
       \<lparr>pw = Some p, browser = Some b, context_h = Some c,
        trace = ?T @ step_events env c pg k xpath\<rparr>)"
    by (simp add: and_then_def click_step_run[OF assms(5,6)] assms(7))
  then have "fst (try_body env init) \<noteq> Inr ()" by simp
  then have np: "main env \<noteq> Passed" by (rule main_failed_if_body_raises)
  from run_bound[OF body, of e] body np
  show ?thesis by (simp add: main_def step_events_def)
qed

text \<open>
  The element of the first click step (the map toggle) never resolves, in four
  environments: no release call raises, or the first, the second or the third one does.
\<close>

theorem click_timeout_witness:
  "(session_ok env_toggle_missing 1 2 3 4 \<and> navigation_ok env_toggle_missing \<and>
    script = [] @ Click_at 1 xpath_header_a2 # tl script \<and>
    list_all (action_ok env_toggle_missing) [] \<and>
    pages_r env_toggle_missing 1 \<noteq> [] \<and> settle_r env_toggle_missing 1 = Inr () \<and>
    click_r env_toggle_missing 1 = Inl (TimeoutError ''Timeout 5000ms exceeded.'') \<and>
    release_ok env_toggle_missing \<and>
    main env_toggle_missing = Failed (TimeoutError ''Timeout 5000ms exceeded.'') \<and>
    events env_toggle_missing =
      session_events 1 2 3 @ navigation_events env_toggle_missing 4 @
      [Pages_read 3, Wait_for_timeout 4 3000,
       Click \<lparr>loc_page = 4, selector = xpath_header_a2, nth_index = 0\<rparr> 5000] @
      [Context_close 3, Browser_close 2, Playwright_stop 1]) \<and>
   (session_ok env_toggle_missing_close_fails 1 2 3 4 \<and>
    navigation_ok env_toggle_missing_close_fails \<and>
    pages_r env_toggle_missing_close_fails 1 \<noteq> [] \<and>
    settle_r env_toggle_missing_close_fails 1 = Inr () \<and>
    click_r env_toggle_missing_close_fails 1 = Inl (TimeoutError ''Timeout 5000ms exceeded.'') \<and>
    context_close_r env_toggle_missing_close_fails = Inl (Error ''Connection closed'') \<and>
    main env_toggle_missing_close_fails = Failed (Error ''Connection closed'') \<and>
    filter is_release (events env_toggle_missing_close_fails) = [Context_close 3]) \<and>
   (session_ok env_toggle_missing_browser_close_fails 1 2 3 4 \<and>
    navigation_ok env_toggle_missing_browser_close_fails \<and>
    pages_r env_toggle_missing_browser_close_fails 1 \<noteq> [] \<and>
    settle_r env_toggle_missing_browser_close_fails 1 = Inr () \<and>
    click_r env_toggle_missing_browser_close_fails 1 =
      Inl (TimeoutError ''Timeout 5000ms exceeded.'') \<and>
    context_close_r env_toggle_missing_browser_close_fails = Inr () \<and>
    browser_close_r env_toggle_missing_browser_close_fails = Inl (Error ''Connection closed'') \<and>
    main env_toggle_missing_browser_close_fails = Failed (Error ''Connection closed'') \<and>
    filter is_release (events env_toggle_missing_browser_close_fails) =
      [Context_close 3, Browser_close 2]) \<and>
   (session_ok env_toggle_missing_stop_fails 1 2 3 4 \<and>
    navigation_ok env_toggle_missing_stop_fails \<and>
    pages_r env_toggle_missing_stop_fails 1 \<noteq> [] \<and>
    settle_r env_toggle_missing_stop_fails 1 = Inr () \<and>
    click_r env_toggle_missing_stop_fails 1 = Inl (TimeoutError ''Timeout 5000ms exceeded.'') \<and>
    context_close_r env_toggle_missing_stop_fails = Inr () \<and>
    browser_close_r env_toggle_missing_stop_fails = Inr () \<and>
    stop_r env_toggle_missing_stop_fails = Inl (Error ''Connection closed'') \<and>
    main env_toggle_missing_stop_fails = Failed (Error ''Connection closed'') \<and>
    filter is_release (events env_toggle_missing_stop_fails) =
      [Context_close 3, Browser_close 2, Playwright_stop 1])"
proof -
  have h3: "script = [] @ Click_at 1 xpath_header_a2 # tl script" by (simp add: script_def)
  have h4: "list_all (action_ok env) []" for env :: "unit env" by simp
  have a: "session_ok env_toggle_missing 1 2 3 4" "navigation_ok env_toggle_missing"
    "pages_r env_toggle_missing 1 \<noteq> []" "settle_r env_toggle_missing 1 = Inr ()"
    "click_r env_toggle_missing 1 = Inl (TimeoutError ''Timeout 5000ms exceeded.'')"
    "release_ok env_toggle_missing" "last (pages_r env_toggle_missing 1) = 4"
    by (simp_all add: session_ok_def navigation_ok_def release_ok_def env_defs)
  have b: "session_ok env_toggle_missing_close_fails 1 2 3 4"
    "navigation_ok env_toggle_missing_close_fails"
    "pages_r env_toggle_missing_close_fails 1 \<noteq> []"
    "settle_r env_toggle_missing_close_fails 1 = Inr ()"
    "click_r env_toggle_missing_close_fails 1 = Inl (TimeoutError ''Timeout 5000ms exceeded.'')"
    "context_close_r env_toggle_missing_close_fails = Inl (Error ''Connection closed'')"
    by (simp_all add: session_ok_def navigation_ok_def env_defs)
  have c: "session_ok env_toggle_missing_browser_close_fails 1 2 3 4"
    "navigation_ok env_toggle_missing_browser_close_fails"
    "pages_r env_toggle_missing_browser_close_fails 1 \<noteq> []"
    "settle_r env_toggle_missing_browser_close_fails 1 = Inr ()"
    "click_r env_toggle_missing_browser_close_fails 1 =
       Inl (TimeoutError ''Timeout 5000ms exceeded.'')"
    "context_close_r env_toggle_missing_browser_close_fails = Inr ()"
    "browser_close_r env_toggle_missing_browser_close_fails = Inl (Error ''Connection closed'')"
    by (simp_all add: session_ok_def navigation_ok_def env_defs)
  have d: "session_ok env_toggle_missing_stop_fails 1 2 3 4"
    "navigation_ok env_toggle_missing_stop_fails"
    "pages_r env_toggle_missing_stop_fails 1 \<noteq> []"
    "settle_r env_toggle_missing_stop_fails 1 = Inr ()"
    "click_r env_toggle_missing_stop_fails 1 = Inl (TimeoutError ''Timeout 5000ms exceeded.'')"
    "context_close_r env_toggle_missing_stop_fails = Inr ()"
    "browser_close_r env_toggle_missing_stop_fails = Inr ()"
    "stop_r env_toggle_missing_stop_fails = Inl (Error ''Connection closed'')"
    by (simp_all add: session_ok_def navigation_ok_def env_defs)
  note f = filter_release_session filter_release_navigation
  have A: "main env_toggle_missing = Failed (TimeoutError ''Timeout 5000ms exceeded.'') \<and>
    events env_toggle_missing =
      session_events 1 2 3 @ navigation_events env_toggle_missing 4 @
      [Pages_read 3, Wait_for_timeout 4 3000,
       Click \<lparr>loc_page = 4, selector = xpath_header_a2, nth_index = 0\<rparr> 5000] @
      [Context_close 3, Browser_close 2, Playwright_stop 1]"
    using click_timeout_is_terminal[OF a(1,2) h3 h4 a(3,4,5)] a(6,7) by simp
  have B: "main env_toggle_missing_close_fails = Failed (Error ''Connection closed'') \<and>
    filter is_release (events env_toggle_missing_close_fails) = [Context_close 3]"
    using click_timeout_is_terminal[OF b(1,2) h3 h4 b(3,4,5),
        where e = "Error ''Connection closed''"] b(6)
    by (simp add: f)
  have C: "main env_toggle_missing_browser_close_fails = Failed (Error ''Connection closed'') \<and>
    filter is_release (events env_toggle_missing_browser_close_fails) =
      [Context_close 3, Browser_close 2]"
    using click_timeout_is_terminal[OF c(1,2) h3 h4 c(3,4,5),
        where e = "Error ''Connection closed''"] c(6,7)
    by (simp add: f)
  have D: "main env_toggle_missing_stop_fails = Failed (Error ''Connection closed'') \<and>
    filter is_release (events env_toggle_missing_stop_fails) =
      [Context_close 3, Browser_close 2, Playwright_stop 1]"
    using click_timeout_is_terminal[OF d(1,2) h3 h4 d(3,4,5),
        where e = "Error ''Connection closed''"] d(6,7,8)
    by (simp add: f)
  from A B C D h3 a(1-6) b c d show ?thesis by simp
qed

text \<open>
  The claim as stated fails where the first click times out and then \<^verbatim>\<open>context.close()\<close>
  raises: browser and driver are bound and are not released, and the run ends with the
  teardown's exception.
\<close>

theorem timeout_without_release_counterexample:
  "click_r env_toggle_missing_close_fails 1 = Inl (TimeoutError ''Timeout 5000ms exceeded.'') \<and>
   fst (try_body env_toggle_missing_close_fails init) =
     Inl (TimeoutError ''Timeout 5000ms exceeded.'') \<and>
   browser (final env_toggle_missing_close_fails) = Some 2 \<and>
   pw (final env_toggle_missing_close_fails) = Some 1 \<and>
   filter is_release (events env_toggle_missing_close_fails) = [Context_close 3] \<and>
   main env_toggle_missing_close_fails = Failed (Error ''Connection closed'')"
  by (simp add: model_defs env_defs)

subsection \<open>C7: the delay before a click and the page it targets\<close>

text \<open>
  Claim C7. In every click step that is reached, whose page list is not empty and whose
  delay returns, the three calls are, in this order and with nothing in between: the read of
  \<^verbatim>\<open>context.pages\<close>, the wait of 3000 ms, and the click, whose locator is bound to the last
  page of the list as read in this very step. The page is read anew in each step, so a page
  that has become the last one since the step before is the one clicked.
\<close>

theorem click_after_delay_on_current_page:
  assumes "session_ok env p b c pg" and "navigation_ok env"
    and "script = pre @ Click_at k xpath # post" and "list_all (action_ok env) pre"
    and "pages_r env k \<noteq> []" and "settle_r env k = Inr ()"
  shows "\<exists>after. events env =
           session_events p b c @ navigation_events env pg @
           concat (map (action_events env c pg) pre) @
           [Pages_read c, Wait_for_timeout pg 3000,
            Click \<lparr>loc_page = last (pages_r env k), selector = xpath, nth_index = 0\<rparr> 5000] @
           after"
  using step_reached[OF assms] by (simp add: step_events_def)

text \<open>
  A page (object 8) is opened by the second click: the third click goes to it, while the
  first two went to the initial page (object 4).
\<close>

theorem click_after_delay_witness:
  "session_ok env_popup 1 2 3 4 \<and> navigation_ok env_popup \<and>
   script = take 3 script @ Click_at 3 xpath_body_div # drop 4 script \<and>
   list_all (action_ok env_popup) (take 3 script) \<and>
   pages_r env_popup 3 \<noteq> [] \<and> settle_r env_popup 3 = Inr () \<and>
   (\<exists>after. events env_popup =
      session_events 1 2 3 @ navigation_events env_popup 4 @
      [Pages_read 3, Wait_for_timeout 4 3000,
       Click \<lparr>loc_page = 4, selector = xpath_header_a2, nth_index = 0\<rparr> 5000,
       Goto 4 api_url None 10000,
       Pages_read 3, Wait_for_timeout 4 3000,
       Click \<lparr>loc_page = 4, selector = xpath_header_a2, nth_index = 0\<rparr> 5000] @
      [Pages_read 3, Wait_for_timeout 4 3000,
       Click \<lparr>loc_page = 8, selector = xpath_body_div, nth_index = 0\<rparr> 5000] @
      after)"
proof -
  have h1: "session_ok env_popup 1 2 3 4" by (simp add: session_ok_def env_defs)
  have h2: "navigation_ok env_popup" by (simp add: navigation_ok_def env_defs)
  have h3: "script = take 3 script @ Click_at 3 xpath_body_div # drop 4 script"
    by (simp add: script_def)
  have h4: "list_all (action_ok env_popup) (take 3 script)"
    by (simp add: script_def env_defs)
  have h5: "pages_r env_popup 3 \<noteq> []" by (simp add: env_defs)
  have h6: "settle_r env_popup 3 = Inr ()" by (simp add: env_defs)
  have t: "concat (map (action_events env_popup 3 4) (take 3 script)) =
      [Pages_read 3, Wait_for_timeout 4 3000,
       Click \<lparr>loc_page = 4, selector = xpath_header_a2, nth_index = 0\<rparr> 5000,
       Goto 4 api_url None 10000,
       Pages_read 3, Wait_for_timeout 4 3000,
       Click \<lparr>loc_page = 4, selector = xpath_header_a2, nth_index = 0\<rparr> 5000]"
    by (simp add: script_def step_events_def env_defs)
  have l: "last (pages_r env_popup 3) = 8" by (simp add: env_defs)
  from click_after_delay_on_current_page[OF h1 h2 h3 h4 h5 h6] h1 h2 h3 h4 h5 h6
  show ?thesis by (simp add: t l)
qed

subsection \<open>C10: the page that is delayed and the page that is clicked\<close>



subsection \<open>C2 and C8: the response of the query endpoint\<close>

text \<open>
  The response of the navigation to the endpoint is dropped at once: whatever it holds, the
  run makes the same calls and ends the same way.
\<close>

lemma teardown_response: "teardown (env\<lparr>api_goto_r := r\<rparr>) = teardown env"
proof -
  have "close_context (env\<lparr>api_goto_r := r\<rparr>) = close_context env"
    and "close_browser (env\<lparr>api_goto_r := r\<rparr>) = close_browser env"
    and "stop_pw (env\<lparr>api_goto_r := r\<rparr>) = stop_pw env"
    by (simp_all add: fun_eq_iff close_context_def close_browser_def stop_pw_def
        split: option.splits)
  then show ?thesis by (simp add: teardown_def)
qed

lemma response_dropped:
  "run_test (env\<lparr>api_goto_r := Inr r1\<rparr>) = run_test (env\<lparr>api_goto_r := Inr r2\<rparr>)"
  by (simp add: run_test_def try_body_def acquire_def navigate_def interact_def script_def
      click_step_def teardown_response discard_def)

text \<open>
  Claim C2 against the code. The endpoint answers with one open issue in Paris, far outside
  the 5 km around (40.7128, -74.0060). The run is the same as with an issue at the centre:
  the same calls, none of which reads the records, and the same outcome, the assertion
  failure about the unknown expected result. No failure names the record.
\<close>

theorem records_are_not_checked:
  "run_test (env_ok \<lparr>records = [far_issue], elapsed_ms = 120\<rparr>) =
   run_test (env_ok \<lparr>records = [near_issue], elapsed_ms = 120\<rparr>) \<and>
   main (env_ok \<lparr>records = [far_issue], elapsed_ms = 120\<rparr>) =
     Failed (AssertionError assert_message)"
proof -
  have "env_ok r = (env_ok r')\<lparr>api_goto_r := Inr r\<rparr>" for r r' :: query_result
    by (simp add: env_ok_def)
  then have "run_test (env_ok \<lparr>records = [far_issue], elapsed_ms = 120\<rparr>) =
             run_test (env_ok \<lparr>records = [near_issue], elapsed_ms = 120\<rparr>)"
    using response_dropped by metis
  moreover have "main (env_ok \<lparr>records = [far_issue], elapsed_ms = 120\<rparr>) =
                   Failed (AssertionError assert_message)"
    by (simp add: model_defs env_ok_def)
  ultimately show ?thesis ..
qed

text \<open>
  Claim C8 against the code. The same answer arrives after 10 ms in one environment and
  after 9000 ms in the other: the two runs are equal, call for call and in their outcome, so
  nothing the run yields tells the elapsed time. The script reads no clock around line 55.
\<close>

theorem elapsed_time_is_not_reported:
  "run_test (env_ok \<lparr>records = [near_issue], elapsed_ms = 10\<rparr>) =
   run_test (env_ok \<lparr>records = [near_issue], elapsed_ms = 9000\<rparr>) \<and>
   Goto 4 api_url None 10000 \<in> set (events (env_ok \<lparr>records = [near_issue], elapsed_ms = 9000\<rparr>))"
proof -
  have "env_ok r = (env_ok r')\<lparr>api_goto_r := Inr r\<rparr>" for r r' :: query_result
    by (simp add: env_ok_def)
  then have "run_test (env_ok \<lparr>records = [near_issue], elapsed_ms = 10\<rparr>) =
             run_test (env_ok \<lparr>records = [near_issue], elapsed_ms = 9000\<rparr>)"
    using response_dropped by metis
  moreover have "Goto 4 api_url None 10000 \<in>
      set (events (env_ok \<lparr>records = [near_issue], elapsed_ms = 9000\<rparr>))"
    by (simp add: model_defs env_ok_def)
  ultimately show ?thesis ..
qed

end
